theory Spec2Isabelle
  imports
    Main
    "HOL-Library.AList"
    "HOL-Library.FSet"
    "HOL-Library.Char_ord"
    "HOL-Library.List_Lexorder"
    "HOL-Library.Product_Lexorder"
begin

section \<open>The gig store and the connection registry of \<open>backend/app.py\<close>\<close>

text \<open>
  The module keeps three process-wide dictionaries (\<open>connections\<close>, \<open>gigs\<close>,
  \<open>gig_assignments\<close>) and a fixed roster \<open>GENTS\<close>. Every handler is modelled as a
  function that takes the state and returns its outcome together with the state it leaves
  behind; an \<open>HTTPException\<close> is the \<open>Inl\<close> of a sum. Python strings are byte
  strings here (UTF-8), ordered lexicographically as Python orders \<open>str\<close>; Python's
  unbounded \<open>int\<close> is \<open>int\<close>.
\<close>

subsection \<open>The pattern \<open>_email_rx\<close>\<close>

text \<open>
  \<open>_email_rx = re.compile(r"^[^@]+@[^@]+\.[^@]+$")\<close>. The pattern is a sequence of two
  kinds of items: a literal character (\<open>@\<close>, and \<open>\.\<close> for the dot) and a negated
  one-character class under \<open>+\<close> (\<open>[^@]+\<close>). \<open>rx_full\<close> decides whether the items
  match the whole string, trying the longer repetition first as the engine does.
\<close>

datatype rx_item = Lit char | PlusNot char

fun rx_full :: "rx_item list \<Rightarrow> string \<Rightarrow> bool" where
  "rx_full [] s = (s = [])"
| "rx_full (Lit c # r) [] = False"
| "rx_full (Lit c # r) (x # xs) = (x = c \<and> rx_full r xs)"
| "rx_full (PlusNot c # r) [] = False"
| "rx_full (PlusNot c # r) (x # xs) =
     (x \<noteq> c \<and> (rx_full (PlusNot c # r) xs \<or> rx_full r xs))"

text \<open>
  \<open>pattern.match(s)\<close> with \<open>^\<close> and \<open>$\<close>: the match starts at the first character,
  and \<open>$\<close> holds at the end of the string and also just before a newline that ends it.
\<close>

definition rx_match :: "rx_item list \<Rightarrow> string \<Rightarrow> bool" where
  "rx_match r s =
     (rx_full r s \<or> (s \<noteq> [] \<and> last s = CHR 0x0A \<and> rx_full r (butlast s)))"

definition email_rx :: "rx_item list" where
  "email_rx =
     [PlusNot CHR ''@'', Lit CHR ''@'', PlusNot CHR ''@'', Lit CHR ''.'', PlusNot CHR ''@'']"

subsection \<open>Data\<close>

text \<open>A gig is the dictionary \<open>{"id", "date", "client_email", "fee"}\<close>.\<close>

record gig =
  g_id :: string
  g_date :: string
  g_client_email :: string
  g_fee :: int

text \<open>
  The exceptions the handlers meet: \<open>HTTPException(status_code, detail)\<close>, the
  \<open>RuntimeError\<close> of \<open>asyncio\<close>, and any other subclass of \<open>Exception\<close> (what a
  failing \<open>ws.send_json\<close> raises). All three are subclasses of \<open>Exception\<close>.
\<close>

datatype exn = HTTPException nat string | RuntimeError string | Exception string

type_synonym payload = "(string \<times> string) list"

text \<open>
  \<open>gigs\<close> is an insertion-ordered dictionary, so an association list: \<open>map_of\<close> reads
  it, \<open>AList.update\<close> overwrites a key in place or appends a new one. The two
  dictionaries of sets are maps to finite sets; a web socket is a number.
\<close>

record state =
  connections :: "string \<rightharpoonup> nat fset"
  gigs :: "(string \<times> gig) list"
  gig_assignments :: "string \<rightharpoonup> string fset"

definition GENTS :: "string list" where
  "GENTS = [''gent-1'', ''gent-2'', ''gent-3'', ''gent-4'', ''gent-5'']"

definition gigs_changed :: payload where
  "gigs_changed = [(''type'', ''gigs_changed'')]"

text \<open>The state of a freshly started process.\<close>

definition init :: state where
  "init = \<lparr>connections = Map.empty, gigs = [], gig_assignments = Map.empty\<rparr>"

subsection \<open>Realtime\<close>

text \<open>
  Python does not fix the order in which a set is iterated; the model iterates in
  ascending order and every statement about the result counts occurrences only.
\<close>

definition add_conn :: "state \<Rightarrow> string \<Rightarrow> nat \<Rightarrow> state" where
  "add_conn st user_id ws =
     st\<lparr>connections := (connections st)
           (user_id \<mapsto> finsert ws (case connections st user_id of None \<Rightarrow> {||} | Some c \<Rightarrow> c))\<rparr>"

definition remove_conn :: "state \<Rightarrow> string \<Rightarrow> nat \<Rightarrow> state" where
  "remove_conn st user_id ws =
     (case connections st user_id of
        None \<Rightarrow> st
      | Some c \<Rightarrow>
          (if c |-| {|ws|} = {||}
           then st\<lparr>connections := (connections st)(user_id := None)\<rparr>
           else st\<lparr>connections := (connections st)(user_id \<mapsto> c |-| {|ws|})\<rparr>))"

text \<open>
  One turn of the loop of \<open>send_to_user\<close>: \<open>try: await ws.send_json(payload)\<close>,
  \<open>except Exception: pass\<close>. \<open>send_json\<close> is the transport: what sending on a socket
  does, a return or a raise.
\<close>

definition try_send :: "(nat \<Rightarrow> payload \<Rightarrow> exn + unit) \<Rightarrow> nat \<Rightarrow> payload \<Rightarrow> exn + unit" where
  "try_send send_json ws payload =
     (case send_json ws payload of Inl e \<Rightarrow> Inr () | Inr u \<Rightarrow> Inr u)"

text \<open>
  The loop returns its outcome and the sockets on which a send was attempted, in order;
  an exception leaving the loop body would end the loop.
\<close>

fun send_loop ::
  "(nat \<Rightarrow> payload \<Rightarrow> exn + unit) \<Rightarrow> payload \<Rightarrow> nat list \<Rightarrow> (exn + unit) \<times> nat list" where
  "send_loop send_json payload [] = (Inr (), [])"
| "send_loop send_json payload (ws # rest) =
     (case try_send send_json ws payload of
        Inl e \<Rightarrow> (Inl e, [ws])
      | Inr u \<Rightarrow>
          (case send_loop send_json payload rest of (r, tr) \<Rightarrow> (r, ws # tr)))"

definition send_to_user ::
  "(nat \<Rightarrow> payload \<Rightarrow> exn + unit) \<Rightarrow> state \<Rightarrow> string \<Rightarrow> payload \<Rightarrow> (exn + unit) \<times> nat list" where
  "send_to_user send_json st user_id payload =
     send_loop send_json payload
       (case connections st user_id of None \<Rightarrow> [] | Some c \<Rightarrow> sorted_list_of_fset c)"

subsection \<open>Gigs\<close>

text \<open>
  \<open>ensure_gig\<close>: \<open>not g\<close> holds for a missing key only, a stored gig always has its
  four keys.
\<close>

definition ensure_gig :: "state \<Rightarrow> string \<Rightarrow> exn + gig" where
  "ensure_gig st gig_id =
     (case map_of (gigs st) gig_id of
        None \<Rightarrow> Inl (HTTPException 404 ''gig not found'')
      | Some g \<Rightarrow> Inr g)"

text \<open>\<open>gig_assignments.get(gig_id, set())\<close>\<close>

definition assigned_to :: "state \<Rightarrow> string \<Rightarrow> string fset" where
  "assigned_to st gig_id = (case gig_assignments st gig_id of None \<Rightarrow> {||} | Some s \<Rightarrow> s)"

text \<open>
  \<open>create_gig\<close>; \<open>gid\<close> is the string that \<open>str(uuid4())\<close> returns in this call.
\<close>

definition create_gig :: "string \<Rightarrow> state \<Rightarrow> string \<Rightarrow> string \<Rightarrow> int \<Rightarrow> (exn + gig) \<times> state" where
  "create_gig gid st date client_email fee =
     (if \<not> rx_match email_rx client_email
      then (Inl (HTTPException 400 ''invalid email''), st)
      else
        (let g = \<lparr>g_id = gid, g_date = date, g_client_email = client_email, g_fee = fee\<rparr>
         in (Inr g,
             st\<lparr>gigs := AList.update gid g (gigs st),
                gig_assignments := (gig_assignments st)(gid \<mapsto> {||})\<rparr>)))"

text \<open>\<open>list_gigs\<close>: every gig with its sorted assignees, in the dictionary's order.\<close>

definition list_gigs :: "state \<Rightarrow> (gig \<times> string list) list" where
  "list_gigs st =
     map (\<lambda>(gid, g). (g, sorted_list_of_fset (assigned_to st gid))) (gigs st)"

text \<open>
  \<open>asyncio.create_task(coro)\<close> schedules the coroutine on the event loop that is running
  in the calling thread, and raises \<open>RuntimeError\<close> when the thread has none. The
  coroutine is the call \<open>send_to_user(gent, payload)\<close>, given by its two arguments.
\<close>

definition create_task :: "bool \<Rightarrow> string \<times> payload \<Rightarrow> exn + unit" where
  "create_task running coro =
     (if running then Inr () else Inl (RuntimeError ''no running event loop''))"

text \<open>
  The loop \<open>for gent in gig_assignments.get(gig_id, set()): asyncio.create_task(...)\<close>:
  its outcome and the tasks created, one pair of recipient and payload each. A raise
  of \<open>create_task\<close> ends the loop and is the outcome.
\<close>

fun notify_loop :: "bool \<Rightarrow> string list \<Rightarrow> (exn + unit) \<times> (string \<times> payload) list" where
  "notify_loop running [] = (Inr (), [])"
| "notify_loop running (gent # rest) =
     (case create_task running (gent, gigs_changed) of
        Inl e \<Rightarrow> (Inl e, [])
      | Inr u \<Rightarrow>
          (case notify_loop running rest of (r, ts) \<Rightarrow> (r, (gent, gigs_changed) # ts)))"

text \<open>
  \<open>update_gig\<close>. \<open>g\<close> is the stored dictionary itself, so each assignment to a key of
  \<open>g\<close> is a write to the store, in the order of the source: the date, then the check
  of the address and the address, then the fee. \<open>put_gig\<close> is the store holding \<open>g\<close>
  as written so far: it is what a raise leaves behind, and what the handler returns
  from. The third component lists the tasks created.

  The handler is declared with \<open>def\<close>, not \<open>async def\<close>, so the framework calls it in a
  worker thread, and a plain call is no different: the calling thread has no running
  event loop. The notification loop therefore runs with \<open>running = False\<close>: on a gig
  with an assignee the first \<open>create_task\<close> raises, after the fields have been written.
\<close>

definition put_gig :: "state \<Rightarrow> string \<Rightarrow> gig \<Rightarrow> state" where
  "put_gig st gig_id g = st\<lparr>gigs := AList.update gig_id g (gigs st)\<rparr>"

definition update_gig ::
  "state \<Rightarrow> string \<Rightarrow> string option \<Rightarrow> string option \<Rightarrow> int option
     \<Rightarrow> (exn + gig) \<times> state \<times> (string \<times> payload) list" where
  "update_gig st gig_id date client_email fee =
     (case ensure_gig st gig_id of
        Inl e \<Rightarrow> (Inl e, st, [])
      | Inr g \<Rightarrow>
          (let g1 = (case date of None \<Rightarrow> g | Some d \<Rightarrow> g\<lparr>g_date := d\<rparr>)
           in if (case client_email of None \<Rightarrow> False | Some e \<Rightarrow> \<not> rx_match email_rx e)
              then (Inl (HTTPException 400 ''invalid email''), put_gig st gig_id g1, [])
              else
                (let g2 = (case client_email of None \<Rightarrow> g1
                           | Some e \<Rightarrow> g1\<lparr>g_client_email := e\<rparr>);
                     g3 = (case fee of None \<Rightarrow> g2 | Some f \<Rightarrow> g2\<lparr>g_fee := f\<rparr>)
                 in (case notify_loop False (sorted_list_of_fset (assigned_to st gig_id)) of
                       (Inl e, ts) \<Rightarrow> (Inl e, put_gig st gig_id g3, ts)
                     | (Inr u, ts) \<Rightarrow> (Inr g3, put_gig st gig_id g3, ts)))))"

text \<open>
  \<open>assign_gent\<close>. The roster is checked before the gig. \<open>setdefault\<close> stores an empty
  set for a gig that has none. The third component lists the calls of \<open>send_to_user\<close>
  made by the handler; the call is awaited, so an exception of it would be the
  handler's.
\<close>

definition assign_gent ::
  "(nat \<Rightarrow> payload \<Rightarrow> exn + unit) \<Rightarrow> state \<Rightarrow> string \<Rightarrow> string \<Rightarrow> bool
     \<Rightarrow> (exn + string \<times> string list) \<times> state \<times> (string \<times> payload) list" where
  "assign_gent send_json st gig_id gent_id assigned =
     (if gent_id \<notin> set GENTS
      then (Inl (HTTPException 404 ''unknown gent id''), st, [])
      else
        (case ensure_gig st gig_id of
           Inl e \<Rightarrow> (Inl e, st, [])
         | Inr g \<Rightarrow>
             (let s = assigned_to st gig_id;
                  before = (gent_id |\<in>| s);
                  s' = (if assigned then finsert gent_id s else s |-| {|gent_id|});
                  st' = st\<lparr>gig_assignments := (gig_assignments st)(gig_id \<mapsto> s')\<rparr>;
                  changed = (before \<noteq> assigned)
              in if changed
                 then (case fst (send_to_user send_json st' gent_id gigs_changed) of
                         Inl e \<Rightarrow> (Inl e, st', [(gent_id, gigs_changed)])
                       | Inr u \<Rightarrow>
                           (Inr (gig_id, sorted_list_of_fset s'), st', [(gent_id, gigs_changed)]))
                 else (Inr (gig_id, sorted_list_of_fset s'), st', []))))"

text \<open>
  \<open>gigs_for_gent\<close>: the gigs of the dictionary, in its order, whose assignment set
  holds \<open>gent_id\<close>, then \<open>result.sort(key=lambda x: (x.get("date", ""), x["id"]))\<close>,
  a stable sort; every gig has its \<open>date\<close> key, so the default is never taken. Python
  compares the key tuples lexicographically and the strings in them character by
  character, which is the order of pairs and of strings used here.
\<close>

definition gigs_for_gent :: "state \<Rightarrow> string \<Rightarrow> exn + gig list" where
  "gigs_for_gent st gent_id =
     (if gent_id \<notin> set GENTS
      then Inl (HTTPException 404 ''unknown gent id'')
      else Inr (sort_key (\<lambda>x. (g_date x, g_id x))
                  (map snd (filter (\<lambda>(gid, g). gent_id |\<in>| assigned_to st gid) (gigs st)))))"

subsection \<open>All operations of the store\<close>

text \<open>
  One request to the store, and the state the store is in when the request has been
  answered, whatever the answer was. \<open>manager_gigs\<close> is \<open>list_gigs\<close>; the three
  listings assign to no dictionary.
\<close>

datatype op =
    CreateGig string string string int
  | ListGigs
  | UpdateGig string "string option" "string option" "int option"
  | AssignGent string string bool
  | ManagerGigs
  | GigsForGent string

fun run_op :: "(nat \<Rightarrow> payload \<Rightarrow> exn + unit) \<Rightarrow> op \<Rightarrow> state \<Rightarrow> state" where
  "run_op send_json (CreateGig gid date client_email fee) st =
     snd (create_gig gid st date client_email fee)"
| "run_op send_json ListGigs st = st"
| "run_op send_json (UpdateGig gig_id date client_email fee) st =
     fst (snd (update_gig st gig_id date client_email fee))"
| "run_op send_json (AssignGent gig_id gent_id assigned) st =
     fst (snd (assign_gent send_json st gig_id gent_id assigned))"
| "run_op send_json ManagerGigs st = st"
| "run_op send_json (GigsForGent gent_id) st = st"

subsection \<open>Properties stated by the specification\<close>

text \<open>
  The shape of a client address in the words of the specification: a non-empty
  local part, \<open>@\<close>, a non-empty domain that contains a \<open>.\<close>, and a non-empty remainder
  after that \<open>.\<close>.
\<close>

definition spec_email_shape :: "string \<Rightarrow> bool" where
  "spec_email_shape s =
     (\<exists>local domain. s = local @ ''@'' @ domain \<and> local \<noteq> [] \<and> domain \<noteq> [] \<and>
        (\<exists>pre rest. domain = pre @ ''.'' @ rest \<and> rest \<noteq> []))"

text \<open>
  The shape the pattern accepts: \<open>l@d.r\<close> with all three parts non-empty and free of
  \<open>@\<close>.
\<close>

definition email_form :: "string \<Rightarrow> bool" where
  "email_form s =
     (\<exists>l d r. s = l @ ''@'' @ d @ ''.'' @ r \<and> l \<noteq> [] \<and> d \<noteq> [] \<and> r \<noteq> [] \<and>
        CHR ''@'' \<notin> set l \<and> CHR ''@'' \<notin> set d \<and> CHR ''@'' \<notin> set r)"

text \<open>
  Referential integrity: every assigned identity is on the roster, and every stored gig
  has an assignment set.
\<close>

definition roster_inv :: "state \<Rightarrow> bool" where
  "roster_inv st =
     ((\<forall>gid s. gig_assignments st gid = Some s \<longrightarrow> fset s \<subseteq> set GENTS) \<and>
      (\<forall>gid \<in> fst ` set (gigs st). gig_assignments st gid \<noteq> None))"

subsection \<open>Transports and states used as examples\<close>

definition always_sent :: "nat \<Rightarrow> payload \<Rightarrow> exn + unit" where
  "always_sent ws payload = Inr ()"

definition broken_on :: "nat \<Rightarrow> nat \<Rightarrow> payload \<Rightarrow> exn + unit" where
  "broken_on bad ws payload = (if ws = bad then Inl (Exception ''closed'') else Inr ())"

definition st_gig1 :: state where
  "st_gig1 = snd (create_gig ''g1'' init ''2025-03-01'' ''client@example.com'' 5000)"

definition st_gent1 :: state where
  "st_gent1 = fst (snd (assign_gent always_sent st_gig1 ''g1'' ''gent-1'' True))"

definition st_two_gigs :: state where
  "st_two_gigs =
     fst (snd (assign_gent always_sent
       (snd (create_gig ''g0'' st_gent1 ''2025-02-01'' ''other@example.org'' 0))
       ''g0'' ''gent-1'' True))"

definition st_three_conns :: state where
  "st_three_conns = add_conn (add_conn (add_conn st_gent1 ''gent-1'' 1) ''gent-1'' 2) ''gent-1'' 3"

section \<open>Lemmas\<close>

subsection \<open>What the pattern accepts\<close>

lemma rx_full_Lit: "rx_full (Lit c # r) s = (\<exists>v. s = c # v \<and> rx_full r v)"
  by (cases s) auto

lemma rx_full_PlusNot:
  "rx_full (PlusNot c # r) s = (\<exists>u v. s = u @ v \<and> u \<noteq> [] \<and> c \<notin> set u \<and> rx_full r v)"
proof (induction s)
  case Nil
  then show ?case by simp
next
  case (Cons x xs)
  show ?case
  proof
    assume "rx_full (PlusNot c # r) (x # xs)"
    then have x: "x \<noteq> c" and d: "rx_full (PlusNot c # r) xs \<or> rx_full r xs" by auto
    from d show "\<exists>u v. x # xs = u @ v \<and> u \<noteq> [] \<and> c \<notin> set u \<and> rx_full r v"
    proof
      assume "rx_full (PlusNot c # r) xs"
      then obtain u v where "xs = u @ v" "c \<notin> set u" "rx_full r v"
        using Cons.IH by blast
      with x have "x # xs = (x # u) @ v \<and> x # u \<noteq> [] \<and> c \<notin> set (x # u) \<and> rx_full r v"
        by auto
      then show ?thesis by blast
    next
      assume "rx_full r xs"
      with x have "x # xs = [x] @ xs \<and> [x] \<noteq> [] \<and> c \<notin> set [x] \<and> rx_full r xs"
        by auto
      then show ?thesis by blast
    qed
  next
    assume "\<exists>u v. x # xs = u @ v \<and> u \<noteq> [] \<and> c \<notin> set u \<and> rx_full r v"
    then obtain u v where uv: "x # xs = u @ v" "u \<noteq> []" "c \<notin> set u" "rx_full r v"
      by blast
    then obtain u' where u: "u = x # u'" "xs = u' @ v"
      by (cases u) auto
    show "rx_full (PlusNot c # r) (x # xs)"
    proof (cases u')
      case Nil
      with u uv show ?thesis by auto
    next
      case ne: (Cons a list)
      have "xs = u' @ v \<and> u' \<noteq> [] \<and> c \<notin> set u' \<and> rx_full r v"
        using ne u uv by auto
      then have "rx_full (PlusNot c # r) xs"
        unfolding Cons.IH by blast
      with u uv show ?thesis by auto
    qed
  qed
qed

lemma rx_full_email: "rx_full email_rx s = email_form s"
  unfolding email_rx_def email_form_def
  by (simp only: rx_full_PlusNot rx_full_Lit rx_full.simps(1)) (auto; blast)

lemma email_form_snoc: "email_form s \<Longrightarrow> c \<noteq> CHR ''@'' \<Longrightarrow> email_form (s @ [c])"
  unfolding email_form_def
  apply (elim exE conjE)
  subgoal for l d r
    apply (rule exI[of _ l], rule exI[of _ d], rule exI[of _ "r @ [c]"])
    apply simp
    done
  done

text \<open>The newline that \<open>$\<close> tolerates adds nothing: \<open>[^@]+\<close> takes a newline as well.\<close>

lemma rx_match_email: "rx_match email_rx s = email_form s"
proof -
  have "email_form s" if "s \<noteq> []" "last s = CHR 0x0A" "email_form (butlast s)"
  proof -
    have "email_form (butlast s @ [last s])"
      using that by (intro email_form_snoc) auto
    moreover have "butlast s @ [last s] = s"
      using that(1) by (rule append_butlast_last_id)
    ultimately show ?thesis by (simp only:)
  qed
  then show ?thesis
    by (auto simp: rx_match_def rx_full_email)
qed

lemma email_form_shape: "email_form s \<Longrightarrow> spec_email_shape s"
  unfolding email_form_def spec_email_shape_def
  apply (elim exE conjE)
  subgoal for l d r
    apply (rule exI[of _ l], rule exI[of _ "d @ ''.'' @ r"])
    apply simp
    apply (rule exI[of _ d], rule exI[of _ r])
    apply simp
    done
  done

subsection \<open>The send loop\<close>

lemma try_send_returns: "try_send send_json ws payload = Inr ()"
  by (simp add: try_send_def split: sum.splits)

lemma send_loop_returns: "send_loop send_json payload wss = (Inr (), wss)"
  by (induction wss) (simp_all add: try_send_returns)

lemma send_to_user_returns: "fst (send_to_user send_json st user_id payload) = Inr ()"
  by (simp add: send_to_user_def send_loop_returns)

subsection \<open>Reading and writing the gig table\<close>

lemma ensure_gig_Some: "map_of (gigs st) gig_id = Some g \<Longrightarrow> ensure_gig st gig_id = Inr g"
  by (simp add: ensure_gig_def)

lemma ensure_gig_None:
  "map_of (gigs st) gig_id = None \<Longrightarrow> ensure_gig st gig_id = Inl (HTTPException 404 ''gig not found'')"
  by (simp add: ensure_gig_def)

lemma put_gig_same: "map_of (gigs st) gig_id = Some g \<Longrightarrow> put_gig st gig_id g = st"
  by (simp add: put_gig_def update_triv)

lemma assigned_to_put_gig [simp]: "assigned_to (put_gig st gig_id g) k = assigned_to st k"
  by (simp add: put_gig_def assigned_to_def)

lemma keys_put_gig: "fst ` set (gigs (put_gig st gig_id g)) = insert gig_id (fst ` set (gigs st))"
  by (simp add: put_gig_def dom_update)

lemma stored_key: "map_of (gigs st) gig_id = Some g \<Longrightarrow> gig_id \<in> fst ` set (gigs st)"
  by (metis domI dom_map_of_conv_image_fst)

subsection \<open>The example states\<close>

lemma ok_address: "rx_match email_rx ''client@example.com''" "rx_match email_rx ''other@example.org''"
  by (simp_all add: rx_match_def email_rx_def)

lemma st_gig1_eq:
  "st_gig1 =
     \<lparr>connections = Map.empty,
      gigs = [(''g1'', \<lparr>g_id = ''g1'', g_date = ''2025-03-01'',
                g_client_email = ''client@example.com'', g_fee = 5000\<rparr>)],
      gig_assignments = [''g1'' \<mapsto> {||}]\<rparr>"
  by (simp add: st_gig1_def create_gig_def init_def ok_address Let_def)

lemma st_gent1_eq:
  "st_gent1 =
     \<lparr>connections = Map.empty,
      gigs = [(''g1'', \<lparr>g_id = ''g1'', g_date = ''2025-03-01'',
                g_client_email = ''client@example.com'', g_fee = 5000\<rparr>)],
      gig_assignments = [''g1'' \<mapsto> {|''gent-1''|}]\<rparr>"
  by (simp add: st_gent1_def st_gig1_eq assign_gent_def GENTS_def ensure_gig_def assigned_to_def
      send_to_user_returns Let_def)

lemma st_two_gigs_eq:
  "st_two_gigs =
     \<lparr>connections = Map.empty,
      gigs = [(''g1'', \<lparr>g_id = ''g1'', g_date = ''2025-03-01'',
                g_client_email = ''client@example.com'', g_fee = 5000\<rparr>),
              (''g0'', \<lparr>g_id = ''g0'', g_date = ''2025-02-01'',
                g_client_email = ''other@example.org'', g_fee = 0\<rparr>)],
      gig_assignments = [''g1'' \<mapsto> {|''gent-1''|}, ''g0'' \<mapsto> {|''gent-1''|}]\<rparr>"
  by (simp add: st_two_gigs_def st_gent1_eq create_gig_def ok_address assign_gent_def GENTS_def
      ensure_gig_def assigned_to_def send_to_user_returns Let_def)

lemma st_three_conns_eq:
  "st_three_conns = st_gent1\<lparr>connections := [''gent-1'' \<mapsto> {|1, 2, 3|}]\<rparr>"
  by (simp add: st_three_conns_def st_gent1_eq add_conn_def) auto

subsection \<open>The handlers on a stored gig\<close>

lemma notify_loop_no_loop:
  "notify_loop False gents =
     (if gents = [] then (Inr (), []) else (Inl (RuntimeError ''no running event loop''), []))"
  by (cases gents) (simp_all add: create_task_def)

lemma assignees_listed: "(sorted_list_of_fset s = []) = (s = {||})"
  by (metis sorted_list_of_fset_simps(2) fset_of_list_simps(1) sorted_list_of_fset_simps(1)
      bot_fset.rep_eq set_empty)

lemma update_gig_unassigned:
  assumes "map_of (gigs st) gig_id = Some g" and "assigned_to st gig_id = {||}"
  shows "update_gig st gig_id None None None = (Inr g, st, [])"
  using assms
  by (simp add: update_gig_def ensure_gig_Some put_gig_same notify_loop_no_loop assignees_listed)

lemma assign_gent_ok:
  assumes "map_of (gigs st) gig_id = Some g" and "gent_id \<in> set GENTS"
  shows "assign_gent send_json st gig_id gent_id assigned =
    (Inr (gig_id, sorted_list_of_fset
            (if assigned then finsert gent_id (assigned_to st gig_id)
             else assigned_to st gig_id |-| {|gent_id|})),
     st\<lparr>gig_assignments := (gig_assignments st)
          (gig_id \<mapsto> (if assigned then finsert gent_id (assigned_to st gig_id)
                      else assigned_to st gig_id |-| {|gent_id|}))\<rparr>,
     if (gent_id |\<in>| assigned_to st gig_id) \<noteq> assigned then [(gent_id, gigs_changed)] else [])"
  using assms
  by (simp add: assign_gent_def ensure_gig_Some send_to_user_returns Let_def)

lemma assigned_to_upd:
  "assigned_to (st\<lparr>gig_assignments := (gig_assignments st)(gig_id \<mapsto> s)\<rparr>) =
     (assigned_to st)(gig_id := s)"
  by (rule ext) (simp add: assigned_to_def)

section \<open>The claims\<close>

subsection \<open>Creating a gig\<close>

text \<open>
  C6, as stated: \<open>create_gig\<close> fails with the validation error exactly when the address
  does not have the shape of the specification. It does not hold: \<open>a@.com\<close> has a
  non-empty local part and a non-empty domain \<open>.com\<close> that contains a dot with the
  non-empty remainder \<open>com\<close>, and the handler rejects it, because the pattern asks for
  a character between the \<open>@\<close> and the dot.
\<close>

theorem create_gig_rejects_shaped_address:
  "spec_email_shape ''a@.com'' \<and>
   create_gig ''g1'' init ''2025-03-01'' ''a@.com'' 5000 =
     (Inl (HTTPException 400 ''invalid email''), init)"
proof
  have "''a@.com'' = ''a'' @ ''@'' @ ''.com'' \<and> ''a'' \<noteq> [] \<and> ''.com'' \<noteq> [] \<and>
          (\<exists>pre rest. ''.com'' = pre @ ''.'' @ rest \<and> rest \<noteq> [])"
    by (simp add: exI [of _ "[]"])
  then show "spec_email_shape ''a@.com''"
    unfolding spec_email_shape_def by blast
  show "create_gig ''g1'' init ''2025-03-01'' ''a@.com'' 5000 =
          (Inl (HTTPException 400 ''invalid email''), init)"
    by (simp add: create_gig_def rx_match_def email_rx_def)
qed

text \<open>
  C6, amended: \<open>create_gig\<close> fails with the validation error (status 400,
  \<open>invalid email\<close>) exactly when the address is not of the form \<open>l@d.r\<close> with \<open>l\<close>,
  \<open>d\<close> and \<open>r\<close> non-empty and free of \<open>@\<close>; it rejects \<open>bad\<close>, \<open>bad@nodot\<close> and
  \<open>@missing-local.com\<close>; on failure the state is unchanged. For every address of that
  form it returns the full record, stores it under the new identifier with an empty
  assignment set, and touches no other entry.
\<close>

theorem create_gig_validates:
  "(\<not> email_form client_email \<longrightarrow>
      create_gig gid st date client_email fee =
        (Inl (HTTPException 400 ''invalid email''), st)) \<and>
   (email_form client_email \<longrightarrow>
      (\<exists>st'. create_gig gid st date client_email fee =
          (Inr \<lparr>g_id = gid, g_date = date, g_client_email = client_email, g_fee = fee\<rparr>, st') \<and>
        map_of (gigs st') gid =
          Some \<lparr>g_id = gid, g_date = date, g_client_email = client_email, g_fee = fee\<rparr> \<and>
        gig_assignments st' gid = Some {||} \<and>
        connections st' = connections st \<and>
        (\<forall>k. k \<noteq> gid \<longrightarrow>
           map_of (gigs st') k = map_of (gigs st) k \<and>
           gig_assignments st' k = gig_assignments st k))) \<and>
   \<not> email_form ''bad'' \<and> \<not> email_form ''bad@nodot'' \<and> \<not> email_form ''@missing-local.com''"
proof (intro conjI impI)
  assume "\<not> email_form client_email"
  then show "create_gig gid st date client_email fee =
               (Inl (HTTPException 400 ''invalid email''), st)"
    by (simp add: create_gig_def rx_match_email)
next
  assume "email_form client_email"
  then show "\<exists>st'. create_gig gid st date client_email fee =
          (Inr \<lparr>g_id = gid, g_date = date, g_client_email = client_email, g_fee = fee\<rparr>, st') \<and>
        map_of (gigs st') gid =
          Some \<lparr>g_id = gid, g_date = date, g_client_email = client_email, g_fee = fee\<rparr> \<and>
        gig_assignments st' gid = Some {||} \<and>
        connections st' = connections st \<and>
        (\<forall>k. k \<noteq> gid \<longrightarrow>
           map_of (gigs st') k = map_of (gigs st) k \<and>
           gig_assignments st' k = gig_assignments st k)"
    by (simp add: create_gig_def rx_match_email update_conv' Let_def)
next
  show "\<not> email_form ''bad''"
    unfolding rx_match_email [symmetric] by (simp add: rx_match_def email_rx_def)
  show "\<not> email_form ''bad@nodot''"
    unfolding rx_match_email [symmetric] by (simp add: rx_match_def email_rx_def)
  show "\<not> email_form ''@missing-local.com''"
    unfolding rx_match_email [symmetric] by (simp add: rx_match_def email_rx_def)
qed

theorem create_gig_validates_witness:
  "email_form ''client@example.com'' \<and> \<not> email_form ''a@b@c.d'' \<and>
   fst (create_gig ''g1'' init ''2025-03-01'' ''client@example.com'' 5000) =
     Inr \<lparr>g_id = ''g1'', g_date = ''2025-03-01'', g_client_email = ''client@example.com'',
          g_fee = 5000\<rparr> \<and>
   gig_assignments (snd (create_gig ''g1'' init ''2025-03-01'' ''client@example.com'' 5000)) ''g1''
     = Some {||} \<and>
   create_gig ''g1'' init ''2025-03-01'' ''a@b@c.d'' 5000 =
     (Inl (HTTPException 400 ''invalid email''), init)"
proof -
  have ok: "email_form ''client@example.com''"
    unfolding rx_match_email [symmetric] by (simp add: rx_match_def email_rx_def)
  have bad: "\<not> email_form ''a@b@c.d''"
    unfolding rx_match_email [symmetric] by (simp add: rx_match_def email_rx_def)
  show ?thesis
    using ok bad
      create_gig_validates [of "''client@example.com''" "''g1''" init "''2025-03-01''" 5000]
      create_gig_validates [of "''a@b@c.d''" "''g1''" init "''2025-03-01''" 5000]
    by auto
qed

subsection \<open>Pushing to an identity\<close>

text \<open>
  C8: \<open>send_to_user\<close> returns normally whatever the transport does on each socket. A
  send is attempted on every socket registered for the identity, once each, so a send
  that raises does not keep the others from being served; for an identity without an
  entry nothing is attempted.
\<close>

theorem send_to_user_swallows:
  "fst (send_to_user send_json st user_id payload) = Inr () \<and>
   distinct (snd (send_to_user send_json st user_id payload)) \<and>
   set (snd (send_to_user send_json st user_id payload)) =
     (case connections st user_id of None \<Rightarrow> {} | Some c \<Rightarrow> fset c) \<and>
   send_to_user send_json (st\<lparr>connections := (connections st)(user_id := None)\<rparr>) user_id payload
     = (Inr (), [])"
  by (simp add: send_to_user_def send_loop_returns sorted_list_of_fset.rep_eq
      split: option.splits)

theorem send_to_user_broken_socket:
  "fst (send_to_user (broken_on 2) st_three_conns ''gent-1'' gigs_changed) = Inr () \<and>
   broken_on 2 2 gigs_changed = Inl (Exception ''closed'') \<and>
   set (snd (send_to_user (broken_on 2) st_three_conns ''gent-1'' gigs_changed)) = {1, 2, 3}"
  using send_to_user_swallows [of "broken_on 2" st_three_conns "''gent-1''" gigs_changed]
  by (auto simp: st_three_conns_eq broken_on_def)

subsection \<open>Updating a gig\<close>

text \<open>
  C1: a patch with an invalid address must fail and leave the gig as it was. The handler
  fails with status 400, but it has written the date by then: on the gig created with
  date \<open>2025-03-01\<close>, the patch with date \<open>2025-04-01\<close>, address \<open>bad\<close> and fee \<open>7000\<close>
  is refused and the stored date is \<open>2025-04-01\<close>; address and fee are the old ones.
\<close>

theorem update_gig_invalid_email_keeps_date:
  "map_of (gigs st_gig1) ''g1'' =
     Some \<lparr>g_id = ''g1'', g_date = ''2025-03-01'', g_client_email = ''client@example.com'',
           g_fee = 5000\<rparr> \<and>
   fst (update_gig st_gig1 ''g1'' (Some ''2025-04-01'') (Some ''bad'') (Some 7000)) =
     Inl (HTTPException 400 ''invalid email'') \<and>
   map_of (gigs (fst (snd
       (update_gig st_gig1 ''g1'' (Some ''2025-04-01'') (Some ''bad'') (Some 7000))))) ''g1'' =
     Some \<lparr>g_id = ''g1'', g_date = ''2025-04-01'', g_client_email = ''client@example.com'',
           g_fee = 5000\<rparr>"
  by (simp add: st_gig1_eq update_gig_def ensure_gig_def put_gig_def rx_match_def email_rx_def)


text \<open>
  C10: a patch with no field on a stored gig must succeed, return the record unchanged
  and create a \<open>gigs_changed\<close> task for every assignee. On the gig assigned to
  \<open>gent-1\<close> the handler neither succeeds nor notifies: it fails with \<open>RuntimeError\<close>
  at \<open>asyncio.create_task\<close>, with the state as it was and no task created.
\<close>

theorem update_gig_empty_patch_raises:
  "map_of (gigs st_gent1) ''g1'' =
     Some \<lparr>g_id = ''g1'', g_date = ''2025-03-01'', g_client_email = ''client@example.com'',
           g_fee = 5000\<rparr> \<and>
   fset (assigned_to st_gent1 ''g1'') = {''gent-1''} \<and>
   update_gig st_gent1 ''g1'' None None None =
     (Inl (RuntimeError ''no running event loop''), st_gent1, [])"
proof (intro conjI)
  show stored: "map_of (gigs st_gent1) ''g1'' =
     Some \<lparr>g_id = ''g1'', g_date = ''2025-03-01'', g_client_email = ''client@example.com'',
           g_fee = 5000\<rparr>"
    by (simp add: st_gent1_eq)
  show at: "fset (assigned_to st_gent1 ''g1'') = {''gent-1''}"
    by (simp add: st_gent1_eq assigned_to_def)
  have "assigned_to st_gent1 ''g1'' \<noteq> {||}"
    using at by auto
  then show "update_gig st_gent1 ''g1'' None None None =
     (Inl (RuntimeError ''no running event loop''), st_gent1, [])"
    by (simp add: update_gig_def ensure_gig_Some [OF stored] put_gig_same [OF stored]
        notify_loop_no_loop assignees_listed)
qed

subsection \<open>Assigning and unassigning\<close>

text \<open>
  C2, as stated: an unknown gig gives the not-found error whether or not the worker is
  on the roster. It does not hold: the handler looks at the roster first, so an unknown
  gig with \<open>gent-9\<close> gives the unknown-worker error.
\<close>

theorem assign_gent_unknown_gig_unknown_gent:
  "map_of (gigs init) ''no-such-gig'' = None \<and>
   assign_gent always_sent init ''no-such-gig'' ''gent-9'' True =
     (Inl (HTTPException 404 ''unknown gent id''), init, []) \<and>
   fst (assign_gent always_sent init ''no-such-gig'' ''gent-9'' True) \<noteq>
     Inl (HTTPException 404 ''gig not found'')"
  by (simp add: assign_gent_def GENTS_def init_def)

text \<open>
  C2, amended: a call whose worker is not on the roster fails with the unknown-worker
  error (status 404, \<open>unknown gent id\<close>), whether or not the gig is stored; a call whose
  worker is on the roster and whose gig is not stored fails with the not-found error
  (status 404, \<open>gig not found\<close>); in both cases the state, and with it the assignment
  relation, is unchanged and nothing is pushed.
\<close>

theorem assign_gent_failures:
  "(gent_id \<notin> set GENTS \<longrightarrow>
      assign_gent send_json st gig_id gent_id assigned =
        (Inl (HTTPException 404 ''unknown gent id''), st, [])) \<and>
   (gent_id \<in> set GENTS \<and> map_of (gigs st) gig_id = None \<longrightarrow>
      assign_gent send_json st gig_id gent_id assigned =
        (Inl (HTTPException 404 ''gig not found''), st, []))"
  by (simp add: assign_gent_def ensure_gig_def)

theorem assign_gent_failures_witness:
  "''gent-9'' \<notin> set GENTS \<and> ''gent-2'' \<in> set GENTS \<and>
   map_of (gigs st_gig1) ''no-such-gig'' = None \<and>
   assign_gent always_sent st_gig1 ''g1'' ''gent-9'' True =
     (Inl (HTTPException 404 ''unknown gent id''), st_gig1, []) \<and>
   assign_gent always_sent st_gig1 ''no-such-gig'' ''gent-2'' True =
     (Inl (HTTPException 404 ''gig not found''), st_gig1, [])"
proof -
  have h: "''gent-9'' \<notin> set GENTS" "''gent-2'' \<in> set GENTS"
    "map_of (gigs st_gig1) ''no-such-gig'' = None"
    by (simp_all add: GENTS_def st_gig1_eq)
  show ?thesis
    using h assign_gent_failures [of "''gent-9''" always_sent st_gig1 "''g1''" True]
      assign_gent_failures [of "''gent-2''" always_sent st_gig1 "''no-such-gig''" True]
    by simp
qed

text \<open>
  C4: on a stored gig and a roster worker the call succeeds, and the same call made
  again returns the same sorted sequence, leaves the state as the first call left it
  and pushes nothing, so at most one push is made by the two calls; when the wanted
  state is the current membership already, the first call pushes nothing either and
  every assignment set is what it was.
\<close>

theorem assign_gent_idempotent:
  assumes "map_of (gigs st) gig_id = Some g" and "gent_id \<in> set GENTS"
  shows "\<exists>st1 ns1.
    assign_gent send_json st gig_id gent_id assigned =
      (Inr (gig_id, sorted_list_of_fset (assigned_to st1 gig_id)), st1, ns1) \<and>
    assign_gent send_json' st1 gig_id gent_id assigned =
      (Inr (gig_id, sorted_list_of_fset (assigned_to st1 gig_id)), st1, []) \<and>
    length ns1 \<le> 1 \<and>
    ((gent_id |\<in>| assigned_to st gig_id) = assigned \<longrightarrow>
       ns1 = [] \<and> assigned_to st1 = assigned_to st)"
proof -
  define s' where "s' = (if assigned then finsert gent_id (assigned_to st gig_id)
                         else assigned_to st gig_id |-| {|gent_id|})"
  define st1 where "st1 = st\<lparr>gig_assignments := (gig_assignments st)(gig_id \<mapsto> s')\<rparr>"
  define ns1 where "ns1 = (if (gent_id |\<in>| assigned_to st gig_id) \<noteq> assigned
                           then [(gent_id, gigs_changed)] else [])"
  have first: "assign_gent send_json st gig_id gent_id assigned =
                 (Inr (gig_id, sorted_list_of_fset s'), st1, ns1)"
    unfolding s'_def st1_def ns1_def by (rule assign_gent_ok [OF assms])
  have at1: "assigned_to st1 gig_id = s'"
    by (simp add: st1_def assigned_to_upd)
  have stored1: "map_of (gigs st1) gig_id = Some g"
    using assms(1) by (simp add: st1_def)
  have member: "(gent_id |\<in>| s') = assigned"
    by (simp add: s'_def)
  have same: "(if assigned then finsert gent_id s' else s' |-| {|gent_id|}) = s'"
    by (auto simp: s'_def)
  have st1_again: "st1\<lparr>gig_assignments := (gig_assignments st1)(gig_id \<mapsto> s')\<rparr> = st1"
    by (simp add: st1_def)
  have second: "assign_gent send_json' st1 gig_id gent_id assigned =
                  (Inr (gig_id, sorted_list_of_fset s'), st1, [])"
    unfolding assign_gent_ok [OF stored1 assms(2)] at1 same st1_again
    by (simp add: member)
  have quiet: "ns1 = [] \<and> assigned_to st1 = assigned_to st"
    if "(gent_id |\<in>| assigned_to st gig_id) = assigned"
  proof -
    have "s' = assigned_to st gig_id"
      using that by (auto simp: s'_def)
    then show ?thesis
      using that by (simp add: ns1_def st1_def assigned_to_upd)
  qed
  have "length ns1 \<le> 1"
    by (simp add: ns1_def)
  with first second quiet at1 show ?thesis
    by auto
qed

theorem assign_gent_idempotent_witness:
  "map_of (gigs st_gig1) ''g1'' \<noteq> None \<and> ''gent-1'' \<in> set GENTS \<and>
   assign_gent always_sent st_gig1 ''g1'' ''gent-1'' True =
     (Inr (''g1'', [''gent-1'']), st_gent1, [(''gent-1'', gigs_changed)]) \<and>
   assign_gent always_sent st_gent1 ''g1'' ''gent-1'' True =
     (Inr (''g1'', [''gent-1'']), st_gent1, [])"
proof -
  have stored: "map_of (gigs st_gig1) ''g1'' =
      Some \<lparr>g_id = ''g1'', g_date = ''2025-03-01'', g_client_email = ''client@example.com'',
            g_fee = 5000\<rparr>"
    by (simp add: st_gig1_eq)
  have gent: "''gent-1'' \<in> set GENTS"
    by (simp add: GENTS_def)
  have first: "assign_gent always_sent st_gig1 ''g1'' ''gent-1'' True =
                 (Inr (''g1'', [''gent-1'']), st_gent1, [(''gent-1'', gigs_changed)])"
    unfolding assign_gent_ok [OF stored gent]
    by (simp add: st_gig1_eq st_gent1_eq assigned_to_def sorted_list_of_fset.rep_eq)
  show ?thesis
    using assign_gent_idempotent [OF stored gent, of always_sent True always_sent] first stored gent
    by auto
qed

text \<open>
  C9, as stated: assigning and then unassigning a roster worker on a stored gig gives
  back the assignee sequence of before. It does not hold for a worker who was assigned
  already: the first call changes nothing and the second removes the worker.
\<close>

theorem assign_unassign_drops_prior_assignment:
  "''gent-1'' \<in> set GENTS \<and> map_of (gigs st_gent1) ''g1'' \<noteq> None \<and>
   sorted_list_of_fset (assigned_to st_gent1 ''g1'') = [''gent-1''] \<and>
   sorted_list_of_fset (assigned_to
     (fst (snd (assign_gent always_sent
        (fst (snd (assign_gent always_sent st_gent1 ''g1'' ''gent-1'' True)))
        ''g1'' ''gent-1'' False))) ''g1'') = []"
  by (simp add: st_gent1_eq assign_gent_def GENTS_def ensure_gig_def assigned_to_def
      send_to_user_returns Let_def sorted_list_of_fset.rep_eq)

text \<open>
  C9, amended: for a stored gig and a roster worker who is not assigned to it, assigning
  and then unassigning succeeds twice, the second call returns the sorted sequence of
  before the first, and every assignment set is what it was.
\<close>

theorem assign_unassign_roundtrip:
  assumes "map_of (gigs st) gig_id = Some g" and "gent_id \<in> set GENTS"
    and "gent_id |\<notin>| assigned_to st gig_id"
  shows "\<exists>st1 st2 ns1 ns2.
    assign_gent send_json st gig_id gent_id True =
      (Inr (gig_id, sorted_list_of_fset (finsert gent_id (assigned_to st gig_id))), st1, ns1) \<and>
    assign_gent send_json' st1 gig_id gent_id False =
      (Inr (gig_id, sorted_list_of_fset (assigned_to st gig_id)), st2, ns2) \<and>
    assigned_to st2 = assigned_to st"
proof -
  define st1 where "st1 = st\<lparr>gig_assignments := (gig_assignments st)
      (gig_id \<mapsto> finsert gent_id (assigned_to st gig_id))\<rparr>"
  have first: "assign_gent send_json st gig_id gent_id True =
      (Inr (gig_id, sorted_list_of_fset (finsert gent_id (assigned_to st gig_id))), st1,
       [(gent_id, gigs_changed)])"
    unfolding assign_gent_ok [OF assms(1,2)]
    using assms(3) by (simp add: st1_def)
  have stored1: "map_of (gigs st1) gig_id = Some g"
    using assms(1) by (simp add: st1_def)
  have at1: "assigned_to st1 gig_id = finsert gent_id (assigned_to st gig_id)"
    by (simp add: st1_def assigned_to_upd)
  have undo: "finsert gent_id (assigned_to st gig_id) |-| {|gent_id|} = assigned_to st gig_id"
    using assms(3) by auto
  define st2 where "st2 = st1\<lparr>gig_assignments := (gig_assignments st1)
      (gig_id \<mapsto> assigned_to st gig_id)\<rparr>"
  have second: "assign_gent send_json' st1 gig_id gent_id False =
      (Inr (gig_id, sorted_list_of_fset (assigned_to st gig_id)), st2,
       [(gent_id, gigs_changed)])"
    unfolding assign_gent_ok [OF stored1 assms(2)] at1
    by (simp add: undo st2_def)
  have "assigned_to st2 = assigned_to st"
    by (simp add: st2_def st1_def assigned_to_upd)
  with first second show ?thesis
    by blast
qed

theorem assign_unassign_roundtrip_witness:
  "map_of (gigs st_gent1) ''g1'' \<noteq> None \<and> ''gent-2'' \<in> set GENTS \<and>
   ''gent-2'' |\<notin>| assigned_to st_gent1 ''g1'' \<and>
   (\<exists>st1 st2 ns1 ns2.
      assign_gent always_sent st_gent1 ''g1'' ''gent-2'' True =
        (Inr (''g1'', [''gent-1'', ''gent-2'']), st1, ns1) \<and>
      assign_gent always_sent st1 ''g1'' ''gent-2'' False =
        (Inr (''g1'', [''gent-1'']), st2, ns2) \<and>
      assigned_to st2 = assigned_to st_gent1)"
proof -
  have stored: "map_of (gigs st_gent1) ''g1'' =
      Some \<lparr>g_id = ''g1'', g_date = ''2025-03-01'', g_client_email = ''client@example.com'',
            g_fee = 5000\<rparr>"
    by (simp add: st_gent1_eq)
  have gent: "''gent-2'' \<in> set GENTS"
    by (simp add: GENTS_def)
  have at: "assigned_to st_gent1 ''g1'' = {|''gent-1''|}"
    by (simp add: st_gent1_eq assigned_to_def)
  have free: "''gent-2'' |\<notin>| assigned_to st_gent1 ''g1''"
    by (simp add: at)
  have l2: "sorted_list_of_fset {|''gent-2'', ''gent-1''|} = [''gent-1'', ''gent-2'']"
    by (simp add: sorted_list_of_fset.rep_eq)
  have l1: "sorted_list_of_fset {|''gent-1''|} = [''gent-1'']"
    by (simp add: sorted_list_of_fset.rep_eq)
  show ?thesis
    using assign_unassign_roundtrip [OF stored gent free, of always_sent always_sent]
      stored gent free
    by (simp add: at l1 l2)
qed

subsection \<open>The gigs of a worker\<close>

text \<open>
  C5: for a worker outside the roster \<open>gigs_for_gent\<close> fails with the unknown-worker
  error. For a roster worker it returns the stored gigs whose assignment set holds the
  worker, all of them and no other, one element for each such entry of the table, in
  ascending order of the date as a string, with the identifier deciding between equal
  dates.
\<close>

theorem gigs_for_gent_lists:
  "(gent_id \<notin> set GENTS \<longrightarrow>
      gigs_for_gent st gent_id = Inl (HTTPException 404 ''unknown gent id'')) \<and>
   (gent_id \<in> set GENTS \<longrightarrow>
      (\<exists>res. gigs_for_gent st gent_id = Inr res \<and>
         set res = {g. \<exists>gid. (gid, g) \<in> set (gigs st) \<and> gent_id |\<in>| assigned_to st gid} \<and>
         length res =
           length (filter (\<lambda>(gid, g). gent_id |\<in>| assigned_to st gid) (gigs st)) \<and>
         sorted_wrt (\<lambda>a b. g_date a < g_date b \<or> (g_date a = g_date b \<and> g_id a \<le> g_id b))
           res))"
proof (intro conjI impI)
  assume "gent_id \<notin> set GENTS"
  then show "gigs_for_gent st gent_id = Inl (HTTPException 404 ''unknown gent id'')"
    by (simp add: gigs_for_gent_def)
next
  assume roster: "gent_id \<in> set GENTS"
  define sel where
    "sel = map snd (filter (\<lambda>(gid, g). gent_id |\<in>| assigned_to st gid) (gigs st))"
  define res where "res = sort_key (\<lambda>x. (g_date x, g_id x)) sel"
  have r: "gigs_for_gent st gent_id = Inr res"
    using roster by (simp add: gigs_for_gent_def res_def sel_def)
  have "set res = set sel"
    by (simp add: res_def)
  also have "\<dots> = {g. \<exists>gid. (gid, g) \<in> set (gigs st) \<and> gent_id |\<in>| assigned_to st gid}"
    by (force simp: sel_def)
  finally have s: "set res =
      {g. \<exists>gid. (gid, g) \<in> set (gigs st) \<and> gent_id |\<in>| assigned_to st gid}" .
  have l: "length res =
      length (filter (\<lambda>(gid, g). gent_id |\<in>| assigned_to st gid) (gigs st))"
    by (simp add: res_def sel_def)
  have "sorted (map (\<lambda>x. (g_date x, g_id x)) res)"
    by (simp add: res_def)
  then have "sorted_wrt (\<lambda>a b. (g_date a, g_id a) \<le> (g_date b, g_id b)) res"
    by (simp add: sorted_wrt_map)
  then have o: "sorted_wrt
      (\<lambda>a b. g_date a < g_date b \<or> (g_date a = g_date b \<and> g_id a \<le> g_id b)) res"
    by (rule sorted_wrt_mono_rel [rotated]) (auto simp: less_eq_prod_def)
  from r s l o show "\<exists>res. gigs_for_gent st gent_id = Inr res \<and>
         set res = {g. \<exists>gid. (gid, g) \<in> set (gigs st) \<and> gent_id |\<in>| assigned_to st gid} \<and>
         length res =
           length (filter (\<lambda>(gid, g). gent_id |\<in>| assigned_to st gid) (gigs st)) \<and>
         sorted_wrt (\<lambda>a b. g_date a < g_date b \<or> (g_date a = g_date b \<and> g_id a \<le> g_id b))
           res"
    by blast
qed

theorem gigs_for_gent_lists_witness:
  "''gent-1'' \<in> set GENTS \<and> ''gent-9'' \<notin> set GENTS \<and>
   map fst (gigs st_two_gigs) = [''g1'', ''g0''] \<and>
   gigs_for_gent st_two_gigs ''gent-1'' =
     Inr [\<lparr>g_id = ''g0'', g_date = ''2025-02-01'', g_client_email = ''other@example.org'',
           g_fee = 0\<rparr>,
          \<lparr>g_id = ''g1'', g_date = ''2025-03-01'', g_client_email = ''client@example.com'',
           g_fee = 5000\<rparr>] \<and>
   gigs_for_gent st_two_gigs ''gent-2'' = Inr [] \<and>
   gigs_for_gent st_two_gigs ''gent-9'' = Inl (HTTPException 404 ''unknown gent id'')"
proof -
  have h: "''gent-1'' \<in> set GENTS" "''gent-9'' \<notin> set GENTS" "''gent-2'' \<in> set GENTS"
    by (simp_all add: GENTS_def)
  have one: "gigs_for_gent st_two_gigs ''gent-1'' =
     Inr [\<lparr>g_id = ''g0'', g_date = ''2025-02-01'', g_client_email = ''other@example.org'',
           g_fee = 0\<rparr>,
          \<lparr>g_id = ''g1'', g_date = ''2025-03-01'', g_client_email = ''client@example.com'',
           g_fee = 5000\<rparr>]"
    by (simp add: gigs_for_gent_def h st_two_gigs_eq assigned_to_def)
  have two: "gigs_for_gent st_two_gigs ''gent-2'' = Inr []"
    by (simp add: gigs_for_gent_def h st_two_gigs_eq assigned_to_def)
  show ?thesis
    using gigs_for_gent_lists [of "''gent-9''" st_two_gigs]
      gigs_for_gent_lists [of "''gent-1''" st_two_gigs] h one two
    by (simp add: st_two_gigs_eq)
qed

subsection \<open>Referential integrity\<close>

text \<open>
  C7: the state of a fresh process has every assigned identity on the roster and an
  assignment set for every stored gig; every request to the store, answered with a
  result or with an error, keeps both; so they hold after any sequence of requests.
  A gig has its set from its creation: \<open>create_gig\<close> stores the empty set with the
  record.
\<close>

theorem roster_inv_preserved:
  "roster_inv init \<and>
   (roster_inv st \<longrightarrow> roster_inv (run_op send_json op st)) \<and>
   roster_inv (foldl (\<lambda>s op. run_op send_json op s) init ops)"
proof -
  have start: "roster_inv init"
    by (simp add: roster_inv_def init_def)
  have step: "roster_inv (run_op send_json op st)" if inv: "roster_inv st" for op st
  proof (cases op)
    case (CreateGig gid date client_email fee)
    show ?thesis
    proof (cases "rx_match email_rx client_email")
      case False
      then show ?thesis
        using inv CreateGig by (simp add: create_gig_def)
    next
      case True
      define st' where "st' = snd (create_gig gid st date client_email fee)"
      have keys: "fst ` set (gigs st') = insert gid (fst ` set (gigs st))"
        using True by (simp add: st'_def create_gig_def Let_def dom_update)
      have sets: "gig_assignments st' = (gig_assignments st)(gid \<mapsto> {||})"
        using True by (simp add: st'_def create_gig_def Let_def)
      have "roster_inv st'"
        unfolding roster_inv_def keys sets
        using inv [unfolded roster_inv_def] by auto
      then show ?thesis
        using CreateGig by (simp add: st'_def)
    qed
  next
    case (UpdateGig gig_id date client_email fee)
    show ?thesis
    proof (cases "map_of (gigs st) gig_id")
      case None
      then show ?thesis
        using inv UpdateGig by (simp add: update_gig_def ensure_gig_None)
    next
      case (Some g)
      have keep: "roster_inv (put_gig st gig_id g')" for g'
        using inv stored_key [OF Some]
        by (auto simp: roster_inv_def keys_put_gig) (auto simp: put_gig_def)
      show ?thesis
        using UpdateGig keep
        by (simp add: update_gig_def ensure_gig_Some [OF Some] notify_loop_no_loop Let_def)
    qed
  next
    case (AssignGent gig_id gent_id assigned)
    show ?thesis
    proof (cases "gent_id \<in> set GENTS \<and> map_of (gigs st) gig_id \<noteq> None")
      case False
      then show ?thesis
        using inv AssignGent by (auto simp: assign_gent_def ensure_gig_None)
    next
      case True
      then obtain g where stored: "map_of (gigs st) gig_id = Some g" and roster: "gent_id \<in> set GENTS"
        by auto
      have old: "fset (assigned_to st gig_id) \<subseteq> set GENTS"
        using inv by (auto simp: roster_inv_def assigned_to_def split: option.splits)
      show ?thesis
        using inv old roster AssignGent
        by (auto simp: assign_gent_ok [OF stored roster] roster_inv_def)
    qed
  qed (use inv in simp_all)
  have "roster_inv (foldl (\<lambda>s op. run_op send_json op s) s0 ops)" if "roster_inv s0" for s0
    using that by (induction ops arbitrary: s0) (simp_all add: step)
  with start step show ?thesis
    by blast
qed

theorem roster_inv_preserved_witness:
  "roster_inv st_gent1 \<and>
   roster_inv (run_op always_sent (AssignGent ''g1'' ''gent-2'' True) st_gent1) \<and>
   gig_assignments (run_op always_sent (AssignGent ''g1'' ''gent-2'' True) st_gent1) ''g1'' =
     Some {|''gent-1'', ''gent-2''|} \<and>
   roster_inv (run_op always_sent
     (UpdateGig ''g1'' (Some ''2025-04-01'') (Some ''bad'') None) st_gent1)"
proof -
  have inv: "roster_inv st_gent1"
    by (simp add: roster_inv_def st_gent1_eq GENTS_def)
  have a: "gig_assignments (run_op always_sent (AssignGent ''g1'' ''gent-2'' True) st_gent1) ''g1'' =
     Some {|''gent-1'', ''gent-2''|}"
    by (auto simp: st_gent1_eq assign_gent_def GENTS_def ensure_gig_def assigned_to_def
        send_to_user_returns Let_def)
  show ?thesis
    using inv a
      roster_inv_preserved [of st_gent1 always_sent "AssignGent ''g1'' ''gent-2'' True" "[]"]
      roster_inv_preserved [of st_gent1 always_sent
        "UpdateGig ''g1'' (Some ''2025-04-01'') (Some ''bad'') None" "[]"]
    by simp
qed

end
